theory Spec2Isabelle
  imports Main "HOL-Library.Word"
begin

section \<open>Network transport abstraction of xash3d-fwgs\<close>

text \<open>
  The development embeds \<^verbatim>\<open>engine/common/net_transport.c\<close> (the registry of the active
  transport and the UDP descriptor) and \<^verbatim>\<open>engine/common/net_transport_webrtc.c\<close> (the
  WebRTC transport with its ring buffer of incoming packets).

  Conventions of the embedding.
  \<^item> A C \<^verbatim>\<open>int\<close> is an \<^typ>\<open>int\<close>. The only arithmetic of the source is \<^verbatim>\<open>tail + 1\<close>,
    \<^verbatim>\<open>head + 1\<close>, \<^verbatim>\<open>count++\<close> and \<^verbatim>\<open>count--\<close>; the first three are executed on values
    below 64, and the last one on a counter that the invariant keeps in \<open>1..64\<close>, so no
    result leaves the 32-bit range. The C remainder \<^verbatim>\<open>%\<close> truncates towards zero and is
    modelled by \<open>c_mod\<close>.
  \<^item> \<^verbatim>\<open>uint8_t\<close> is \<^typ>\<open>8 word\<close>; a buffer is the list of the bytes allocated behind
    the pointer.
  \<^item> A nullable pointer is an \<^typ>\<open>'a option\<close>, \<open>None\<close> being \<^verbatim>\<open>NULL\<close>.
  \<^item> A function that can index the queue outside its bounds, copy beyond a buffer or
    dereference \<^verbatim>\<open>NULL\<close> returns an \<open>option\<close>: \<open>None\<close> stands for the undefined
    behaviour of C. The theorems show that \<open>None\<close> is never the result on the states the
    program reaches.
  \<^item> \<^verbatim>\<open>Con_Printf\<close> and \<^verbatim>\<open>Con_DPrintf\<close> only print; they have no effect on the state
    modelled here and are left out.
\<close>

subsection \<open>Transport descriptors and the registry\<close>

text \<open>
  The five slots of a \<^verbatim>\<open>net_transport_t\<close> hold function pointers. A function pointer is
  modelled by the name of the function it points to.
\<close>

datatype fn_ptr =
    Fn_NET_UDP_Init | Fn_NET_UDP_Shutdown | Fn_NET_UDP_Send | Fn_NET_UDP_Poll | Fn_NET_UDP_Recv
  | Fn_NET_WebRTC_Init | Fn_NET_WebRTC_Shutdown | Fn_NET_WebRTC_Send | Fn_NET_WebRTC_Poll
  | Fn_NET_WebRTC_Recv

record net_transport_t =
  init :: fn_ptr
  shutdown :: fn_ptr
  send :: fn_ptr
  poll :: fn_ptr
  recv :: fn_ptr
  name :: string

definition g_udp_transport :: net_transport_t where
  "g_udp_transport =
     \<lparr>init = Fn_NET_UDP_Init, shutdown = Fn_NET_UDP_Shutdown, send = Fn_NET_UDP_Send,
      poll = Fn_NET_UDP_Poll, recv = Fn_NET_UDP_Recv, name = ''UDP''\<rparr>"

definition g_webrtc_transport :: net_transport_t where
  "g_webrtc_transport =
     \<lparr>init = Fn_NET_WebRTC_Init, shutdown = Fn_NET_WebRTC_Shutdown, send = Fn_NET_WebRTC_Send,
      poll = Fn_NET_WebRTC_Poll, recv = Fn_NET_WebRTC_Recv, name = ''WebRTC''\<rparr>"

text \<open>
  The program has exactly two descriptor objects, both static. A non-null
  \<^verbatim>\<open>net_transport_t *\<close> is the address of one of them; \<open>deref\<close> reads the object.
\<close>

datatype transport_ptr = Addr_g_udp_transport | Addr_g_webrtc_transport

fun deref :: "transport_ptr \<Rightarrow> net_transport_t" where
  "deref Addr_g_udp_transport = g_udp_transport"
| "deref Addr_g_webrtc_transport = g_webrtc_transport"

text \<open>
  \<^verbatim>\<open>static net_transport_t *g_current_transport = NULL;\<close> The registry functions take the
  cell and return the result together with the new cell.
\<close>

definition g_current_transport_initial :: "transport_ptr option" where
  "g_current_transport_initial = None"

definition NET_GetCurrentTransport ::
  "transport_ptr option \<Rightarrow> transport_ptr option \<times> transport_ptr option" where
  "NET_GetCurrentTransport g_current_transport =
     (let g_current_transport =
            (if g_current_transport = None then Some Addr_g_udp_transport
             else g_current_transport)
      in (g_current_transport, g_current_transport))"

definition NET_SetTransport ::
  "transport_ptr option \<Rightarrow> transport_ptr option \<Rightarrow> transport_ptr option \<times> transport_ptr option"
  where
  "NET_SetTransport transport g_current_transport =
     (let prev = g_current_transport;
          g_current_transport =
            (if transport \<noteq> None then transport else g_current_transport)
      in (prev, g_current_transport))"

definition NET_GetUDPTransport :: "transport_ptr option" where
  "NET_GetUDPTransport = Some Addr_g_udp_transport"

definition NET_GetWebRTCTransport :: "transport_ptr option" where
  "NET_GetWebRTCTransport = Some Addr_g_webrtc_transport"

subsection \<open>The state of the WebRTC transport\<close>

definition WEBRTC_QUEUE_SIZE :: int where
  "WEBRTC_QUEUE_SIZE = 64"

definition WEBRTC_MAX_PACKET_SIZE :: int where
  "WEBRTC_MAX_PACKET_SIZE = 2048"

text \<open>
  \<^verbatim>\<open>netadr_t\<close> is declared in a header that is not part of the files at hand; the type of
  addresses is the parameter \<open>'adr\<close>. The fields \<^verbatim>\<open>length\<close> and \<^verbatim>\<open>from\<close> of
  \<^verbatim>\<open>webrtc_packet_t\<close> are \<open>length_p\<close> and \<open>from_p\<close> here.
\<close>

record 'adr webrtc_packet_t =
  data :: "8 word list"
  length_p :: int
  from_p :: 'adr

record 'adr webrtc_state =
  queue :: "'adr webrtc_packet_t list"
  head :: int
  tail :: int
  count :: int
  initialized :: bool

text \<open>
  \<^verbatim>\<open>g_webrtc_state = { 0 }\<close>: every byte of the object is zero. \<open>zero_adr\<close> is the
  all-zero \<^verbatim>\<open>netadr_t\<close>.
\<close>

definition g_webrtc_state_initial :: "'adr \<Rightarrow> 'adr webrtc_state" where
  "g_webrtc_state_initial zero_adr =
     \<lparr>queue = replicate (nat WEBRTC_QUEUE_SIZE)
                \<lparr>data = replicate (nat WEBRTC_MAX_PACKET_SIZE) 0, length_p = 0,
                 from_p = zero_adr\<rparr>,
      head = 0, tail = 0, count = 0, initialized = False\<rparr>"

text \<open>The two translation units' static objects together.\<close>

record 'adr globals =
  g_current_transport :: "transport_ptr option"
  g_webrtc_state :: "'adr webrtc_state"

definition globals_initial :: "'adr \<Rightarrow> 'adr globals" where
  "globals_initial zero_adr =
     \<lparr>g_current_transport = g_current_transport_initial,
      g_webrtc_state = g_webrtc_state_initial zero_adr\<rparr>"

subsection \<open>C primitives\<close>

text \<open>The remainder of C: the sign follows the dividend.\<close>

definition c_mod :: "int \<Rightarrow> int \<Rightarrow> int" where
  "c_mod a b = sgn a * (\<bar>a\<bar> mod \<bar>b\<bar>)"

text \<open>
  \<^verbatim>\<open>memcpy(dst, src, n)\<close> on buffers given by their allocated bytes: the first \<open>n\<close> bytes
  of \<open>dst\<close> are replaced. The count is converted to \<^verbatim>\<open>size_t\<close>, so a negative \<open>n\<close> is a
  huge count; copying more than either buffer holds is undefined.
\<close>

definition memcpy :: "'a list \<Rightarrow> 'a list \<Rightarrow> int \<Rightarrow> 'a list option" where
  "memcpy dst src n =
     (if 0 \<le> n \<and> nat n \<le> length src \<and> nat n \<le> length dst
      then Some (take (nat n) src @ drop (nat n) dst)
      else None)"

text \<open>\<^verbatim>\<open>&arr[i]\<close> followed by an access is defined only inside the array.\<close>

definition in_bounds :: "'a list \<Rightarrow> int \<Rightarrow> bool" where
  "in_bounds arr i = (0 \<le> i \<and> nat i < length arr)"

subsection \<open>The entry points called by the JavaScript bridge\<close>

text \<open>
  \<^verbatim>\<open>webrtc_init_js()\<close> is imported from JavaScript; its return value is the parameter
  \<open>webrtc_init_js\<close>. The return value of \<^verbatim>\<open>NET_SetTransport\<close> is dropped, as in the source.
\<close>

definition webrtc_init :: "int \<Rightarrow> 'adr globals \<Rightarrow> int \<times> 'adr globals" where
  "webrtc_init webrtc_init_js g =
     (if webrtc_init_js = 0 then (0, g)
      else
        let st = (g_webrtc_state g)\<lparr>head := 0, tail := 0, count := 0, initialized := True\<rparr>;
            (prev, cur) = NET_SetTransport NET_GetWebRTCTransport (g_current_transport g)
        in (1, g\<lparr>g_current_transport := cur, g_webrtc_state := st\<rparr>))"

text \<open>
  \<^verbatim>\<open>NET_StringToAdr\<close> is defined outside the files at hand. It is the parameter
  \<open>NET_StringToAdr\<close>, the address it writes through its second argument as a function of
  the string.
\<close>

definition webrtc_push ::
  "(string \<Rightarrow> 'adr) \<Rightarrow> 8 word list \<Rightarrow> int \<Rightarrow> 'adr webrtc_state \<Rightarrow> 'adr webrtc_state option"
  where
  "webrtc_push NET_StringToAdr dat len s =
     (if \<not> initialized s then Some s
      else if len \<le> 0 \<or> len > WEBRTC_MAX_PACKET_SIZE then Some s
      else if count s \<ge> WEBRTC_QUEUE_SIZE then Some s
      else if \<not> in_bounds (queue s) (tail s) then None
      else
        let packet = queue s ! nat (tail s) in
        case memcpy (data packet) dat len of
          None \<Rightarrow> None
        | Some d \<Rightarrow>
            let packet = packet\<lparr>data := d, length_p := len,
                                from_p := NET_StringToAdr ''127.0.0.1:27015''\<rparr>
            in Some (s\<lparr>queue := (queue s)[nat (tail s) := packet],
                       tail := c_mod (tail s + 1) WEBRTC_QUEUE_SIZE,
                       count := count s + 1\<rparr>))"

subsection \<open>The operations of the WebRTC descriptor\<close>

definition NET_WebRTC_Init :: "'adr globals \<Rightarrow> int \<times> 'adr globals" where
  "NET_WebRTC_Init g = (1, g)"

definition NET_WebRTC_Shutdown :: "'adr webrtc_state \<Rightarrow> 'adr webrtc_state" where
  "NET_WebRTC_Shutdown s = s\<lparr>initialized := False, count := 0\<rparr>"

text \<open>
  \<^verbatim>\<open>emscripten_webrtc_send\<close> is imported from JavaScript; the parameter of the same name
  gives its return value. The result of \<open>NET_WebRTC_Send\<close> carries, next to the return
  value, the list of the calls made to the bridge. \<^verbatim>\<open>*to\<close> is read for the diagnostic
  before the bridge is called.
\<close>

definition NET_WebRTC_Send ::
  "(8 word list \<Rightarrow> int \<Rightarrow> int) \<Rightarrow> 8 word list \<Rightarrow> int \<Rightarrow> 'adr option \<Rightarrow> 'adr webrtc_state
     \<Rightarrow> (int \<times> (8 word list \<times> int) list) option" where
  "NET_WebRTC_Send emscripten_webrtc_send buf len to s =
     (if \<not> initialized s then Some (- 1, [])
      else if to = None then None
      else
        let result = emscripten_webrtc_send buf len in
        if result \<noteq> len then Some (- 1, [(buf, len)])
        else Some (len, [(buf, len)]))"

definition NET_WebRTC_Poll :: "'adr webrtc_state \<Rightarrow> int" where
  "NET_WebRTC_Poll s = (if \<not> initialized s then 0 else count s)"

text \<open>
  The result of \<open>NET_WebRTC_Recv\<close>: the return value, the caller's buffer, the caller's
  address object behind \<^verbatim>\<open>from\<close> (\<open>None\<close> when \<^verbatim>\<open>from\<close> is \<^verbatim>\<open>NULL\<close>) and the state.
\<close>

definition NET_WebRTC_Recv ::
  "8 word list \<Rightarrow> int \<Rightarrow> 'adr option \<Rightarrow> 'adr webrtc_state
     \<Rightarrow> (int \<times> 8 word list \<times> 'adr option \<times> 'adr webrtc_state) option" where
  "NET_WebRTC_Recv buf maxlen from s =
     (if \<not> initialized s \<or> count s = 0 then Some (0, buf, from, s)
      else if \<not> in_bounds (queue s) (head s) then None
      else
        let packet = queue s ! nat (head s) in
        if length_p packet > maxlen
        then Some (- 1, buf, from,
                   s\<lparr>head := c_mod (head s + 1) WEBRTC_QUEUE_SIZE, count := count s - 1\<rparr>)
        else
          case memcpy buf (data packet) (length_p packet) of
            None \<Rightarrow> None
          | Some buf' \<Rightarrow>
              let from' = (if from \<noteq> None then Some (from_p packet) else from);
                  len = length_p packet
              in Some (len, buf', from',
                       s\<lparr>head := c_mod (head s + 1) WEBRTC_QUEUE_SIZE, count := count s - 1\<rparr>))"

text \<open>A call through the \<^verbatim>\<open>init\<close> slot of a descriptor.\<close>

definition NET_UDP_Init :: "'adr globals \<Rightarrow> int \<times> 'adr globals" where
  "NET_UDP_Init g = (1, g)"

definition call_init :: "transport_ptr \<Rightarrow> 'adr globals \<Rightarrow> (int \<times> 'adr globals) option" where
  "call_init t g =
     (case init (deref t) of
        Fn_NET_UDP_Init \<Rightarrow> Some (NET_UDP_Init g)
      | Fn_NET_WebRTC_Init \<Rightarrow> Some (NET_WebRTC_Init g)
      | _ \<Rightarrow> None)"

subsection \<open>Sequences of calls\<close>

text \<open>
  The bridge and the engine call the entry points one after the other on the same
  static state. \<open>exec\<close> performs one call on the static objects, \<open>run\<close> a list of
  calls; the first undefined call makes the whole run undefined.
\<close>

datatype 'adr call =
    Call_webrtc_init int
  | Call_webrtc_push "8 word list" int
  | Call_NET_WebRTC_Recv "8 word list" int "'adr option"
  | Call_NET_WebRTC_Shutdown

fun exec :: "(string \<Rightarrow> 'adr) \<Rightarrow> 'adr call \<Rightarrow> 'adr globals \<Rightarrow> 'adr globals option" where
  "exec f (Call_webrtc_init js) g = Some (snd (webrtc_init js g))"
| "exec f (Call_webrtc_push dat len) g =
     (case webrtc_push f dat len (g_webrtc_state g) of
        None \<Rightarrow> None
      | Some s \<Rightarrow> Some (g\<lparr>g_webrtc_state := s\<rparr>))"
| "exec f (Call_NET_WebRTC_Recv buf maxlen from) g =
     (case NET_WebRTC_Recv buf maxlen from (g_webrtc_state g) of
        None \<Rightarrow> None
      | Some (r, buf', from', s) \<Rightarrow> Some (g\<lparr>g_webrtc_state := s\<rparr>))"
| "exec f Call_NET_WebRTC_Shutdown g =
     Some (g\<lparr>g_webrtc_state := NET_WebRTC_Shutdown (g_webrtc_state g)\<rparr>)"

fun run :: "(string \<Rightarrow> 'adr) \<Rightarrow> 'adr call list \<Rightarrow> 'adr globals \<Rightarrow> 'adr globals option" where
  "run f [] g = Some g"
| "run f (c # cs) g = (case exec f c g of None \<Rightarrow> None | Some g' \<Rightarrow> run f cs g')"

text \<open>
  What a caller owes: \<^verbatim>\<open>data\<close> holds at least \<^verbatim>\<open>len\<close> bytes, and \<^verbatim>\<open>buf\<close> holds at least
  \<^verbatim>\<open>maxlen\<close> bytes.
\<close>

fun call_ok :: "'adr call \<Rightarrow> bool" where
  "call_ok (Call_webrtc_push dat len) = (len \<le> int (length dat))"
| "call_ok (Call_NET_WebRTC_Recv buf maxlen from) = (maxlen \<le> int (length buf))"
| "call_ok c = True"

fun push_all ::
  "(string \<Rightarrow> 'adr) \<Rightarrow> (8 word list \<times> int) list \<Rightarrow> 'adr webrtc_state \<Rightarrow> 'adr webrtc_state option"
  where
  "push_all f [] s = Some s"
| "push_all f ((dat, len) # ps) s =
     (case webrtc_push f dat len s of None \<Rightarrow> None | Some s' \<Rightarrow> push_all f ps s')"

text \<open>
  \<open>drain n\<close> calls \<open>NET_WebRTC_Recv\<close> \<open>n\<close> times with a buffer of the maximal packet
  size and collects what each call delivers: the received bytes and the source address. A
  call that returns 0 or a negative value delivers nothing.
\<close>

fun drain ::
  "nat \<Rightarrow> 'adr \<Rightarrow> 'adr webrtc_state
     \<Rightarrow> ((8 word list \<times> 'adr option) list \<times> 'adr webrtc_state) option" where
  "drain 0 z s = Some ([], s)"
| "drain (Suc n) z s =
     (case NET_WebRTC_Recv (replicate (nat WEBRTC_MAX_PACKET_SIZE) 0) WEBRTC_MAX_PACKET_SIZE
             (Some z) s of
        None \<Rightarrow> None
      | Some (r, buf, from, s') \<Rightarrow>
          (case drain n z s' of
             None \<Rightarrow> None
           | Some (ps, s'') \<Rightarrow>
               Some ((if 0 < r then [(take (nat r) buf, from)] else []) @ ps, s'')))"

subsection \<open>Invariants\<close>

text \<open>The shape of the static object: 64 slots of 2048 bytes each.\<close>

definition queue_ok :: "'adr webrtc_state \<Rightarrow> bool" where
  "queue_ok s =
     (length (queue s) = nat WEBRTC_QUEUE_SIZE \<and>
      list_all (\<lambda>p. length (data p) = nat WEBRTC_MAX_PACKET_SIZE) (queue s))"

text \<open>The occupancy invariant: the counter and both indices are in range.\<close>

definition queue_inv :: "'adr webrtc_state \<Rightarrow> bool" where
  "queue_inv s =
     (0 \<le> count s \<and> count s \<le> WEBRTC_QUEUE_SIZE \<and>
      0 \<le> head s \<and> head s < WEBRTC_QUEUE_SIZE \<and>
      0 \<le> tail s \<and> tail s < WEBRTC_QUEUE_SIZE)"

text \<open>The slots that hold queued packets, from the head on.\<close>

definition live :: "'adr webrtc_state \<Rightarrow> 'adr webrtc_packet_t list" where
  "live s =
     map (\<lambda>i. queue s ! nat ((head s + int i) mod WEBRTC_QUEUE_SIZE)) [0..<nat (count s)]"

text \<open>The queued packets as a caller sees them: the bytes and the source address.\<close>

definition pending :: "'adr webrtc_state \<Rightarrow> (8 word list \<times> 'adr option) list" where
  "pending s = map (\<lambda>p. (take (nat (length_p p)) (data p), Some (from_p p))) (live s)"

definition ring_ok :: "'adr webrtc_state \<Rightarrow> bool" where
  "ring_ok s =
     (tail s = (head s + count s) mod WEBRTC_QUEUE_SIZE \<and>
      list_all (\<lambda>p. 0 < length_p p \<and> length_p p \<le> WEBRTC_MAX_PACKET_SIZE) (live s))"

definition state_inv :: "'adr webrtc_state \<Rightarrow> bool" where
  "state_inv s = (queue_ok s \<and> queue_inv s \<and> (initialized s \<longrightarrow> ring_ok s))"

text \<open>
  The packets that a list of pushes adds to a queue that holds \<open>c\<close> packets: those of a
  valid size, as long as there is room.
\<close>

definition size_ok :: "8 word list \<times> int \<Rightarrow> bool" where
  "size_ok p = (0 < snd p \<and> snd p \<le> WEBRTC_MAX_PACKET_SIZE)"

definition accepted :: "int \<Rightarrow> (8 word list \<times> int) list \<Rightarrow> (8 word list \<times> int) list" where
  "accepted c ps = take (nat (WEBRTC_QUEUE_SIZE - c)) (filter size_ok ps)"

definition delivered ::
  "(string \<Rightarrow> 'adr) \<Rightarrow> (8 word list \<times> int) list \<Rightarrow> (8 word list \<times> 'adr option) list" where
  "delivered f ps =
     map (\<lambda>p. (take (nat (snd p)) (fst p), Some (f ''127.0.0.1:27015''))) ps"

text \<open>
  The state after the two statements that remove the head packet,
  \<^verbatim>\<open>head = (head + 1) % WEBRTC_QUEUE_SIZE; count--;\<close>, which both returning branches of
  \<open>NET_WebRTC_Recv\<close> execute.
\<close>

definition dequeued :: "'adr webrtc_state \<Rightarrow> 'adr webrtc_state" where
  "dequeued s = s\<lparr>head := c_mod (head s + 1) WEBRTC_QUEUE_SIZE, count := count s - 1\<rparr>"

text \<open>
  The specification's reading of what a list of pushes adds to the queue: the pushed
  packets minus those that are oversized and those that find the queue full. It differs
  from \<open>accepted\<close> in the size test only, and is compared with the code below.
\<close>

definition accepted_as_claimed :: "int \<Rightarrow> (8 word list \<times> int) list \<Rightarrow> (8 word list \<times> int) list"
  where
  "accepted_as_claimed c ps =
     take (nat (WEBRTC_QUEUE_SIZE - c)) (filter (\<lambda>p. \<not> snd p > WEBRTC_MAX_PACKET_SIZE) ps)"

subsection \<open>Two concrete states\<close>

text \<open>
  The state right after a successful \<open>webrtc_init\<close> in a fresh process, and the state
  after one more push of three bytes. Addresses are strings here and
  \<^verbatim>\<open>NET_StringToAdr\<close> is the identity.
\<close>

definition example_fresh :: "string webrtc_state" where
  "example_fresh = g_webrtc_state (snd (webrtc_init 1 (globals_initial ''0.0.0.0'')))"

definition example_one :: "string webrtc_state" where
  "example_one = the (webrtc_push (\<lambda>a. a) [1, 2, 3] 3 example_fresh)"

section \<open>Index arithmetic of the ring\<close>

text \<open>On the values the program computes with, the remainder of C is \<open>mod\<close>.\<close>

lemma c_mod_succ: "0 \<le> a \<Longrightarrow> c_mod (a + 1) 64 = (a + 1) mod 64"
  by (simp add: c_mod_def sgn_if)

lemma idx_distinct:
  fixes h :: int
  assumes "i < c" "c < 64"
  shows "(h + int i) mod 64 \<noteq> (h + int c) mod 64"
proof
  assume "(h + int i) mod 64 = (h + int c) mod 64"
  then have "(h + int c) mod 64 = (h + int i) mod 64" by (rule sym)
  then have "(64::int) dvd (h + int c) - (h + int i)"
    by (simp only: mod_eq_dvd_iff)
  then have d: "(64::int) dvd int c - int i" by simp
  have "0 < int c - int i" using assms by simp
  with d have "64 \<le> int c - int i" by (rule zdvd_imp_le)
  with assms show False by simp
qed

lemma live_after_push:
  fixes h c :: int
  assumes "0 \<le> c" "c < 64" "length q = 64"
  shows "map (\<lambda>i. q[nat ((h + c) mod 64) := p] ! nat ((h + int i) mod 64)) [0..<nat (c + 1)]
       = map (\<lambda>i. q ! nat ((h + int i) mod 64)) [0..<nat c] @ [p]"
proof -
  define k where "k = nat ((h + c) mod 64)"
  have n: "[0..<nat (c + 1)] = [0..<nat c] @ [nat c]"
    using assms by (simp add: nat_add_distrib)
  have c: "int (nat c) = c" using assms by simp
  have lt: "k < length q" using assms by (simp add: k_def)
  have a: "\<And>i. i < nat c \<Longrightarrow> k \<noteq> nat ((h + int i) mod 64)"
  proof -
    fix i assume "i < nat c"
    then have "(h + int i) mod 64 \<noteq> (h + int (nat c)) mod 64"
      using assms by (intro idx_distinct) simp_all
    then have "(h + int i) mod 64 \<noteq> (h + c) mod 64"
      unfolding c .
    then show "k \<noteq> nat ((h + int i) mod 64)"
      by (simp add: k_def nat_eq_iff)
  qed
  have 1: "map (\<lambda>i. q[k := p] ! nat ((h + int i) mod 64)) [0..<nat c]
         = map (\<lambda>i. q ! nat ((h + int i) mod 64)) [0..<nat c]"
    by (rule map_cong) (simp_all add: a)
  have 2: "q[k := p] ! nat ((h + int (nat c)) mod 64) = p"
    unfolding c using lt by (simp add: k_def)
  show ?thesis
    unfolding k_def [symmetric] n map_append 1 by (simp only: 2 list.map)
qed

lemma live_after_recv:
  fixes h c :: int
  assumes "0 \<le> h" "h < 64" "0 < c"
  shows "map (\<lambda>i. q ! nat ((h + int i) mod 64)) [0..<nat c]
       = q ! nat h # map (\<lambda>i. q ! nat (((h + 1) mod 64 + int i) mod 64)) [0..<nat (c - 1)]"
proof -
  have n: "nat c = Suc (nat (c - 1))" using assms by simp
  have e: "\<And>i. ((h + 1) mod 64 + int i) mod 64 = (h + int (Suc i)) mod 64"
  proof -
    fix i
    have "((h + 1) mod 64 + int i) mod 64 = ((h + 1) + int i) mod 64"
      by (rule mod_add_left_eq)
    also have "\<dots> = (h + int (Suc i)) mod 64"
      by (simp add: ac_simps)
    finally show "((h + 1) mod 64 + int i) mod 64 = (h + int (Suc i)) mod 64" .
  qed
  have "[0..<nat c] = 0 # map Suc [0..<nat (c - 1)]"
    unfolding n by (simp only: upt_conv_Cons zero_less_Suc map_Suc_upt)
  then show ?thesis
    using assms by (simp add: e comp_def del: of_nat_Suc)
qed

section \<open>One push, one receive\<close>

text \<open>Inside a well-shaped queue every index below 64 is in bounds.\<close>

lemma queue_ok_length: "queue_ok s \<Longrightarrow> length (queue s) = 64"
  by (simp add: queue_ok_def WEBRTC_QUEUE_SIZE_def)

lemma queue_ok_in_bounds: "queue_ok s \<Longrightarrow> 0 \<le> i \<Longrightarrow> i < 64 \<Longrightarrow> in_bounds (queue s) i"
  by (simp add: in_bounds_def queue_ok_length)

lemma queue_ok_data:
  "queue_ok s \<Longrightarrow> 0 \<le> i \<Longrightarrow> i < 64 \<Longrightarrow> length (data (queue s ! nat i)) = 2048"
  by (simp add: queue_ok_def WEBRTC_QUEUE_SIZE_def WEBRTC_MAX_PACKET_SIZE_def list_all_length)

lemma queue_ok_update:
  assumes "queue_ok s" "length (data p) = 2048"
  shows "queue_ok (s\<lparr>queue := (queue s)[k := p], tail := t, count := c\<rparr>)"
proof -
  have "set ((queue s)[k := p]) \<subseteq> insert p (set (queue s))"
    by (rule set_update_subset_insert)
  then show ?thesis
    using assms
    by (auto simp: queue_ok_def WEBRTC_MAX_PACKET_SIZE_def list_all_iff)
qed

text \<open>
  A push of a valid size into a queue with room is defined, keeps the invariant and appends
  the packet behind the queued ones.
\<close>

lemma webrtc_push_accept:
  assumes inv: "state_inv s" and ini: "initialized s" and sz: "size_ok (dat, len)"
    and room: "count s < 64" and src: "len \<le> int (length dat)"
  shows "\<exists>s'. webrtc_push f dat len s = Some s' \<and> state_inv s' \<and> initialized s' \<and>
           count s' = count s + 1 \<and> pending s' = pending s @ delivered f [(dat, len)]"
proof -
  from inv ini have qok: "queue_ok s" and qinv: "queue_inv s" and ring: "ring_ok s"
    by (simp_all add: state_inv_def)
  from qinv have b: "0 \<le> count s" "0 \<le> head s" "head s < 64" "0 \<le> tail s" "tail s < 64"
    by (simp_all add: queue_inv_def WEBRTC_QUEUE_SIZE_def)
  from ring have t: "tail s = (head s + count s) mod 64"
    and lens: "list_all (\<lambda>p. 0 < length_p p \<and> length_p p \<le> 2048) (live s)"
    by (simp_all add: ring_ok_def WEBRTC_QUEUE_SIZE_def WEBRTC_MAX_PACKET_SIZE_def)
  from sz have l: "0 < len" "len \<le> 2048"
    by (simp_all add: size_ok_def WEBRTC_MAX_PACKET_SIZE_def)
  define old where "old = queue s ! nat (tail s)"
  define d where "d = take (nat len) dat @ drop (nat len) (data old)"
  define p where "p = old\<lparr>data := d, length_p := len, from_p := f ''127.0.0.1:27015''\<rparr>"
  define s' where "s' = s\<lparr>queue := (queue s)[nat (tail s) := p],
                           tail := (tail s + 1) mod 64, count := count s + 1\<rparr>"
  have dl: "length (data old) = 2048"
    unfolding old_def using qok b by (simp add: queue_ok_data)
  have nl: "nat len \<le> length dat" "nat len \<le> 2048"
    using l src by (simp_all add: nat_le_iff)
  have cp: "memcpy (data old) dat len = Some d"
    using l nl dl by (simp add: memcpy_def d_def)
  have ib: "in_bounds (queue s) (tail s)"
    using qok b by (simp add: queue_ok_in_bounds)
  have eq: "webrtc_push f dat len s = Some s'"
    using ini l room ib cp b
    by (simp add: webrtc_push_def WEBRTC_MAX_PACKET_SIZE_def WEBRTC_QUEUE_SIZE_def
          c_mod_succ old_def [symmetric] p_def [symmetric] s'_def Let_def)
  have pl: "length (data p) = 2048"
    using nl dl by (simp add: p_def d_def)
  have lv: "live s' = live s @ [p]"
    using live_after_push [of "count s" "queue s" "head s" p] b room qok
    by (simp add: live_def s'_def t WEBRTC_QUEUE_SIZE_def queue_ok_length)
  have q': "queue_ok s'"
    unfolding s'_def using qok pl by (rule queue_ok_update)
  have i': "queue_inv s'"
    using b room by (simp add: queue_inv_def s'_def WEBRTC_QUEUE_SIZE_def)
  have r': "ring_ok s'"
    using lens l
    by (simp add: ring_ok_def lv WEBRTC_QUEUE_SIZE_def WEBRTC_MAX_PACKET_SIZE_def p_def)
       (simp add: s'_def t mod_add_left_eq add.assoc)
  have pe: "pending s' = pending s @ delivered f [(dat, len)]"
    using nl dl by (simp add: pending_def lv delivered_def p_def d_def)
  have "state_inv s'" using q' i' r' by (simp add: state_inv_def)
  moreover have "initialized s'" using ini by (simp add: s'_def)
  moreover have "count s' = count s + 1" by (simp add: s'_def)
  ultimately show ?thesis using eq pe by blast
qed

lemma webrtc_push_drop:
  "\<not> initialized s \<or> \<not> size_ok (dat, len) \<or> 64 \<le> count s \<Longrightarrow> webrtc_push f dat len s = Some s"
  by (auto simp: webrtc_push_def size_ok_def WEBRTC_QUEUE_SIZE_def)

text \<open>Removing the head packet keeps the invariant and leaves the remaining packets.\<close>

lemma live_head:
  assumes inv: "state_inv s" and ini: "initialized s" and ne: "count s \<noteq> 0"
  shows "live s = queue s ! nat (head s) # live (dequeued s)"
proof -
  from inv have b: "0 \<le> head s" "head s < 64" "0 \<le> count s"
    by (simp_all add: state_inv_def queue_inv_def WEBRTC_QUEUE_SIZE_def)
  with ne have c: "0 < count s" by simp
  have h: "head (dequeued s) = (head s + 1) mod 64"
    using b by (simp add: dequeued_def WEBRTC_QUEUE_SIZE_def c_mod_succ)
  show ?thesis
    using live_after_recv [OF b(1) b(2) c, of "queue s"]
    by (simp add: live_def h WEBRTC_QUEUE_SIZE_def) (simp add: dequeued_def)
qed

lemma dequeued_inv:
  assumes inv: "state_inv s" and ini: "initialized s" and ne: "count s \<noteq> 0"
  shows "state_inv (dequeued s)"
proof -
  from inv ini have qok: "queue_ok s" and qinv: "queue_inv s" and ring: "ring_ok s"
    by (simp_all add: state_inv_def)
  from qinv have b: "0 \<le> count s" "count s \<le> 64" "0 \<le> head s" "head s < 64"
      "0 \<le> tail s" "tail s < 64"
    by (simp_all add: queue_inv_def WEBRTC_QUEUE_SIZE_def)
  have h: "head (dequeued s) = (head s + 1) mod 64"
    using b by (simp add: dequeued_def WEBRTC_QUEUE_SIZE_def c_mod_succ)
  have q': "queue_ok (dequeued s)"
    using qok by (simp add: queue_ok_def dequeued_def)
  have i': "queue_inv (dequeued s)"
    using b ne by (simp add: queue_inv_def h WEBRTC_QUEUE_SIZE_def) (simp add: dequeued_def)
  have "((head s + 1) mod 64 + (count s - 1)) mod 64 = (head s + 1 + (count s - 1)) mod 64"
    by (rule mod_add_left_eq)
  then have t: "tail (dequeued s) = (head (dequeued s) + count (dequeued s)) mod 64"
    using ring unfolding h by (simp add: ring_ok_def WEBRTC_QUEUE_SIZE_def dequeued_def)
  have "list_all (\<lambda>p. 0 < length_p p \<and> length_p p \<le> WEBRTC_MAX_PACKET_SIZE) (live s)"
    using ring by (simp add: ring_ok_def)
  then have "list_all (\<lambda>p. 0 < length_p p \<and> length_p p \<le> WEBRTC_MAX_PACKET_SIZE)
               (live (dequeued s))"
    unfolding live_head [OF inv ini ne] by simp
  with t have "ring_ok (dequeued s)"
    by (simp add: ring_ok_def WEBRTC_QUEUE_SIZE_def)
  with q' i' show ?thesis by (simp add: state_inv_def)
qed

lemma dequeued_fields:
  "0 \<le> head s \<Longrightarrow>
   head (dequeued s) = (head s + 1) mod WEBRTC_QUEUE_SIZE \<and> count (dequeued s) = count s - 1 \<and>
   tail (dequeued s) = tail s \<and> queue (dequeued s) = queue s \<and>
   initialized (dequeued s) = initialized s"
  by (simp add: dequeued_def WEBRTC_QUEUE_SIZE_def c_mod_succ)

lemma head_packet_size:
  assumes inv: "state_inv s" and ini: "initialized s" and ne: "count s \<noteq> 0"
  shows "0 < length_p (queue s ! nat (head s)) \<and> length_p (queue s ! nat (head s)) \<le> 2048"
proof -
  from inv ini have "ring_ok s" by (simp add: state_inv_def)
  then have "list_all (\<lambda>p. 0 < length_p p \<and> length_p p \<le> 2048) (live s)"
    by (simp add: ring_ok_def WEBRTC_MAX_PACKET_SIZE_def)
  then show ?thesis
    unfolding live_head [OF inv ini ne] by simp
qed

text \<open>The result of a receive on a non-empty queue, for a buffer of at least \<open>maxlen\<close> bytes.\<close>

lemma NET_WebRTC_Recv_result:
  assumes inv: "state_inv s" and ini: "initialized s" and ne: "count s \<noteq> 0"
    and dst: "maxlen \<le> int (length buf)"
  shows "NET_WebRTC_Recv buf maxlen from s =
           Some (let p = queue s ! nat (head s); n = nat (length_p p) in
                 if maxlen < length_p p then (- 1, buf, from, dequeued s)
                 else (length_p p, take n (data p) @ drop n buf,
                       if from \<noteq> None then Some (from_p p) else from, dequeued s))"
proof -
  from inv have qok: "queue_ok s" and b: "0 \<le> head s" "head s < 64"
    by (simp_all add: state_inv_def queue_inv_def WEBRTC_QUEUE_SIZE_def)
  define p where "p = queue s ! nat (head s)"
  have sz: "0 < length_p p" "length_p p \<le> 2048"
    using head_packet_size [OF inv ini ne] by (simp_all add: p_def)
  have dl: "length (data p) = 2048"
    unfolding p_def using qok b by (simp add: queue_ok_data)
  have ib: "in_bounds (queue s) (head s)"
    using qok b by (simp add: queue_ok_in_bounds)
  have cp: "\<not> maxlen < length_p p \<Longrightarrow>
            memcpy buf (data p) (length_p p)
              = Some (take (nat (length_p p)) (data p) @ drop (nat (length_p p)) buf)"
    using sz dl dst by (simp add: memcpy_def nat_le_iff)
  show ?thesis
    using ini ne ib cp
    by (simp add: NET_WebRTC_Recv_def p_def [symmetric] dequeued_def Let_def)
qed

lemma NET_WebRTC_Recv_drop:
  assumes inv: "state_inv s" and ini: "initialized s" and ne: "count s \<noteq> 0"
    and small: "maxlen < length_p (queue s ! nat (head s))"
  shows "NET_WebRTC_Recv buf maxlen from s = Some (- 1, buf, from, dequeued s)"
proof -
  from inv have qok: "queue_ok s" and b: "0 \<le> head s" "head s < 64"
    by (simp_all add: state_inv_def queue_inv_def WEBRTC_QUEUE_SIZE_def)
  have ib: "in_bounds (queue s) (head s)"
    using qok b by (simp add: queue_ok_in_bounds)
  show ?thesis
    using ini ne ib small by (simp add: NET_WebRTC_Recv_def dequeued_def Let_def)
qed

section \<open>Lists of pushes and receives\<close>

lemma accepted_Cons_ok:
  "size_ok x \<Longrightarrow> c < 64 \<Longrightarrow> accepted c (x # ps) = x # accepted (c + 1) ps"
proof -
  assume a: "size_ok x" "c < 64"
  then have "nat (64 - c) = Suc (nat (64 - (c + 1)))" by simp
  with a show ?thesis by (simp add: accepted_def WEBRTC_QUEUE_SIZE_def)
qed

lemma accepted_Cons_bad: "\<not> size_ok x \<Longrightarrow> accepted c (x # ps) = accepted c ps"
  by (simp add: accepted_def)

lemma accepted_full: "64 \<le> c \<Longrightarrow> accepted c ps = []"
  by (simp add: accepted_def WEBRTC_QUEUE_SIZE_def)

lemma push_all_pending:
  assumes "state_inv s" "initialized s" "list_all (\<lambda>p. snd p \<le> int (length (fst p))) ps"
  shows "\<exists>s'. push_all f ps s = Some s' \<and> state_inv s' \<and> initialized s' \<and>
           count s' = count s + int (length (accepted (count s) ps)) \<and>
           pending s' = pending s @ delivered f (accepted (count s) ps)"
  using assms
proof (induction ps arbitrary: s)
  case Nil
  then show ?case by (simp add: accepted_def delivered_def)
next
  case (Cons x ps)
  obtain dat len where x: "x = (dat, len)" by (cases x)
  from Cons.prems have src: "len \<le> int (length dat)"
    and rest: "list_all (\<lambda>p. snd p \<le> int (length (fst p))) ps"
    by (simp_all add: x)
  show ?case
  proof (cases "size_ok x \<and> count s < 64")
    case True
    then have ok: "size_ok (dat, len)" "count s < 64" by (simp_all add: x)
    from webrtc_push_accept [OF Cons.prems(1) Cons.prems(2) ok src, of f]
    obtain s1 where s1: "webrtc_push f dat len s = Some s1" "state_inv s1" "initialized s1"
      "count s1 = count s + 1" "pending s1 = pending s @ delivered f [(dat, len)]"
      by blast
    from Cons.IH [OF s1(2) s1(3) rest]
    obtain s' where s': "push_all f ps s1 = Some s'" "state_inv s'" "initialized s'"
      "count s' = count s1 + int (length (accepted (count s1) ps))"
      "pending s' = pending s1 @ delivered f (accepted (count s1) ps)"
      by blast
    have acc: "accepted (count s) (x # ps) = x # accepted (count s + 1) ps"
      using True by (simp add: accepted_Cons_ok)
    have "push_all f (x # ps) s = Some s'" by (simp add: x s1 s')
    moreover have "count s' = count s + int (length (accepted (count s) (x # ps)))"
      by (simp add: acc s'(4) s1(4))
    moreover have "pending s' = pending s @ delivered f (accepted (count s) (x # ps))"
      by (simp add: acc [unfolded x] s'(5) s1(4) s1(5) x delivered_def)
    ultimately show ?thesis using s'(2) s'(3) by blast
  next
    case False
    then have drop: "\<not> initialized s \<or> \<not> size_ok (dat, len) \<or> 64 \<le> count s"
      by (auto simp: x)
    have same: "webrtc_push f dat len s = Some s"
      using drop by (rule webrtc_push_drop)
    have acc: "accepted (count s) (x # ps) = accepted (count s) ps"
      using False by (cases "size_ok x") (simp_all add: accepted_Cons_bad accepted_full)
    from Cons.IH [OF Cons.prems(1) Cons.prems(2) rest]
    show ?thesis by (simp add: x [symmetric] acc) (simp add: x same)
  qed
qed

lemma drain_pending:
  assumes "state_inv s" "initialized s" "n = nat (count s)"
  shows "\<exists>s'. drain n z s = Some (pending s, s') \<and> count s' = 0 \<and> state_inv s' \<and>
           initialized s'"
  using assms
proof (induction n arbitrary: s)
  case 0
  then have "count s = 0" by (simp add: state_inv_def queue_inv_def)
  then show ?case using 0 by (simp add: pending_def live_def)
next
  case (Suc n)
  then have ne: "count s \<noteq> 0" by auto
  note inv = Suc.prems(1) and ini = Suc.prems(2)
  define p where "p = queue s ! nat (head s)"
  define buf :: "8 word list" where "buf = replicate (nat WEBRTC_MAX_PACKET_SIZE) 0"
  have sz: "0 < length_p p" "length_p p \<le> 2048"
    using head_packet_size [OF inv ini ne] by (simp_all add: p_def)
  from inv have qok: "queue_ok s" and b: "0 \<le> head s" "head s < 64"
    by (simp_all add: state_inv_def queue_inv_def WEBRTC_QUEUE_SIZE_def)
  have dl: "length (data p) = 2048"
    unfolding p_def using qok b by (simp add: queue_ok_data)
  have bl: "WEBRTC_MAX_PACKET_SIZE \<le> int (length buf)"
    by (simp add: buf_def)
  have r: "NET_WebRTC_Recv buf WEBRTC_MAX_PACKET_SIZE (Some z) s =
             Some (length_p p, take (nat (length_p p)) (data p) @ drop (nat (length_p p)) buf,
                   Some (from_p p), dequeued s)"
    using NET_WebRTC_Recv_result [OF inv ini ne bl, of "Some z"] sz
    by (simp add: p_def [symmetric] Let_def WEBRTC_MAX_PACKET_SIZE_def)
  have inv': "state_inv (dequeued s)" using inv ini ne by (rule dequeued_inv)
  have ini': "initialized (dequeued s)" using ini by (simp add: dequeued_def)
  have n': "n = nat (count (dequeued s))" using Suc.prems(3) by (simp add: dequeued_def)
  from Suc.IH [OF inv' ini' n']
  obtain s' where s': "drain n z (dequeued s) = Some (pending (dequeued s), s')"
    "count s' = 0" "state_inv s'" "initialized s'"
    by blast
  have pe: "pending s = (take (nat (length_p p)) (data p), Some (from_p p)) # pending (dequeued s)"
    by (simp add: pending_def live_head [OF inv ini ne] p_def)
  have "drain (Suc n) z s = Some (pending s, s')"
    using sz dl by (simp add: buf_def [symmetric] r s'(1) pe nat_le_iff)
  with s' show ?case by blast
qed

section \<open>The invariant along runs\<close>

lemma state_inv_initial: "state_inv (g_webrtc_state_initial z)"
  by (simp add: state_inv_def queue_ok_def queue_inv_def g_webrtc_state_initial_def
        WEBRTC_QUEUE_SIZE_def WEBRTC_MAX_PACKET_SIZE_def list_all_iff)

lemma state_inv_reset:
  assumes "queue_ok s"
  shows "state_inv (s\<lparr>head := 0, tail := 0, count := 0, initialized := True\<rparr>)"
  using assms
  by (simp add: state_inv_def queue_ok_def queue_inv_def ring_ok_def live_def
        WEBRTC_QUEUE_SIZE_def)

lemma state_inv_shutdown:
  assumes "state_inv s"
  shows "state_inv (NET_WebRTC_Shutdown s)"
  using assms
  by (simp add: state_inv_def queue_ok_def queue_inv_def NET_WebRTC_Shutdown_def
        WEBRTC_QUEUE_SIZE_def)

lemma webrtc_init_state:
  "g_webrtc_state (snd (webrtc_init js g)) =
     (if js = 0 then g_webrtc_state g
      else (g_webrtc_state g)\<lparr>head := 0, tail := 0, count := 0, initialized := True\<rparr>)"
  by (simp add: webrtc_init_def NET_SetTransport_def NET_GetWebRTCTransport_def)

lemma webrtc_push_inv:
  assumes inv: "state_inv s" and src: "len \<le> int (length dat)"
  shows "\<exists>s'. webrtc_push f dat len s = Some s' \<and> state_inv s'"
proof (cases "initialized s \<and> size_ok (dat, len) \<and> count s < 64")
  case True
  then show ?thesis using webrtc_push_accept [of s dat len f] inv src by blast
next
  case False
  then have "webrtc_push f dat len s = Some s"
    by (intro webrtc_push_drop) auto
  with inv show ?thesis by simp
qed

lemma NET_WebRTC_Recv_inv:
  assumes inv: "state_inv s" and dst: "maxlen \<le> int (length buf)"
  shows "\<exists>r b a s'. NET_WebRTC_Recv buf maxlen from s = Some (r, b, a, s') \<and> state_inv s'"
proof (cases "initialized s \<and> count s \<noteq> 0")
  case True
  then have ini: "initialized s" and ne: "count s \<noteq> 0" by simp_all
  have "state_inv (dequeued s)" using inv ini ne by (rule dequeued_inv)
  then show ?thesis
    using NET_WebRTC_Recv_result [OF inv ini ne dst, of "from"]
    by (simp add: Let_def)
next
  case False
  then have "NET_WebRTC_Recv buf maxlen from s = Some (0, buf, from, s)"
    by (auto simp: NET_WebRTC_Recv_def)
  with inv show ?thesis by simp
qed

lemma exec_inv:
  assumes "state_inv (g_webrtc_state g)" "call_ok c"
  shows "\<exists>g'. exec f c g = Some g' \<and> state_inv (g_webrtc_state g')"
proof (cases c)
  case (Call_webrtc_init js)
  from assms(1) have "queue_ok (g_webrtc_state g)" by (simp add: state_inv_def)
  then show ?thesis
    using assms(1) by (simp add: Call_webrtc_init webrtc_init_state state_inv_reset)
next
  case (Call_webrtc_push dat len)
  with assms(2) have "len \<le> int (length dat)" by simp
  from webrtc_push_inv [OF assms(1) this, of f]
  show ?thesis by (auto simp: Call_webrtc_push)
next
  case (Call_NET_WebRTC_Recv buf maxlen fr)
  with assms(2) have "maxlen \<le> int (length buf)" by simp
  from NET_WebRTC_Recv_inv [OF assms(1) this, of fr]
  show ?thesis by (auto simp: Call_NET_WebRTC_Recv)
next
  case Call_NET_WebRTC_Shutdown
  then show ?thesis using assms(1) by (simp add: state_inv_shutdown)
qed

lemma run_inv:
  assumes "state_inv (g_webrtc_state g)" "list_all call_ok cs"
  shows "\<exists>g'. run f cs g = Some g' \<and> state_inv (g_webrtc_state g')"
  using assms
proof (induction cs arbitrary: g)
  case Nil
  then show ?case by simp
next
  case (Cons c cs)
  then have ok: "call_ok c" and oks: "list_all call_ok cs" by simp_all
  from exec_inv [OF Cons.prems(1) ok, of f]
  obtain g1 where g1: "exec f c g = Some g1" "state_inv (g_webrtc_state g1)" by blast
  from Cons.IH [OF g1(2) oks]
  show ?case by (simp add: g1(1))
qed

section \<open>The concrete states\<close>

lemma example_fresh_eq:
  "example_fresh = (g_webrtc_state_initial ''0.0.0.0'')\<lparr>initialized := True\<rparr>"
  by (simp add: example_fresh_def webrtc_init_state globals_initial_def
        g_webrtc_state_initial_def)

lemma example_fresh_inv:
  "state_inv example_fresh \<and> initialized example_fresh \<and> count example_fresh = 0"
proof -
  have "queue_ok (g_webrtc_state_initial ''0.0.0.0'')"
    using state_inv_initial [of "''0.0.0.0''"] by (simp add: state_inv_def)
  then have "state_inv example_fresh"
    unfolding example_fresh_def globals_initial_def
    by (simp add: webrtc_init_state state_inv_reset)
  moreover have "initialized example_fresh \<and> count example_fresh = 0"
    by (simp add: example_fresh_eq g_webrtc_state_initial_def)
  ultimately show ?thesis by simp
qed

lemma example_one_push:
  "webrtc_push (\<lambda>a. a) [1, 2, 3] 3 example_fresh = Some example_one \<and>
   state_inv example_one \<and> initialized example_one \<and> count example_one = 1"
proof -
  have sz: "size_ok ([1, 2, 3], 3)" by (simp add: size_ok_def WEBRTC_MAX_PACKET_SIZE_def)
  from example_fresh_inv
  have "\<exists>s'. webrtc_push (\<lambda>a. a) [1, 2, 3] 3 example_fresh = Some s' \<and> state_inv s' \<and>
          initialized s' \<and> count s' = count example_fresh + 1 \<and>
          pending s' = pending example_fresh @ delivered (\<lambda>a. a) [([1, 2, 3], 3)]"
    by (intro webrtc_push_accept sz) simp_all
  then show ?thesis using example_fresh_inv by (auto simp: example_one_def)
qed

lemma example_one_head:
  "head example_one = 0 \<and> length_p (queue example_one ! 0) = 3 \<and>
   data (queue example_one ! 0) = [1, 2, 3] @ replicate 2045 0 \<and>
   from_p (queue example_one ! 0) = ''127.0.0.1:27015''"
  by (simp add: example_one_def example_fresh_eq g_webrtc_state_initial_def webrtc_push_def
        WEBRTC_QUEUE_SIZE_def WEBRTC_MAX_PACKET_SIZE_def in_bounds_def memcpy_def)

section \<open>The claims\<close>

subsection \<open>C1: first in, first out\<close>

text \<open>
  Claim C1, as the code has it. Let the transport be initialized in a state that satisfies
  the invariant, and let every pushed buffer hold the announced number of bytes. Then a list
  of calls of \<open>webrtc_push\<close> is defined, and draining the queue afterwards with
  \<open>NET_WebRTC_Recv\<close> delivers exactly the packets that were queued before, followed by the
  pushed packets of a valid size (\<open>0 < len \<le> 2048\<close>) for which there was room, in
  push order, each with the placeholder source address; \<open>NET_WebRTC_Poll\<close> counts them and
  is 0 after the drain. In particular, when the queue holds 64 packets, the pushes leave the
  state as it is, and the 64 queued packets are what the drain delivers.
\<close>

theorem webrtc_push_fifo:
  assumes "state_inv s" "initialized s" "list_all (\<lambda>p. snd p \<le> int (length (fst p))) ps"
  shows "\<exists>s1 s2. push_all f ps s = Some s1 \<and>
           NET_WebRTC_Poll s1 = count s + int (length (accepted (count s) ps)) \<and>
           drain (nat (NET_WebRTC_Poll s1)) z s1
             = Some (pending s @ delivered f (accepted (count s) ps), s2) \<and>
           NET_WebRTC_Poll s2 = 0 \<and>
           (count s = WEBRTC_QUEUE_SIZE \<longrightarrow>
              s1 = s \<and> length (pending s) = 64 \<and> accepted (count s) ps = [])"
proof -
  from push_all_pending [OF assms, of f]
  obtain s1 where s1: "push_all f ps s = Some s1" "state_inv s1" "initialized s1"
    "count s1 = count s + int (length (accepted (count s) ps))"
    "pending s1 = pending s @ delivered f (accepted (count s) ps)"
    by blast
  have poll: "NET_WebRTC_Poll s1 = count s1" using s1(3) by (simp add: NET_WebRTC_Poll_def)
  from drain_pending [OF s1(2) s1(3) refl, of z]
  obtain s2 where s2: "drain (nat (count s1)) z s1 = Some (pending s1, s2)" "count s2 = 0"
    by blast
  have full: "count s = WEBRTC_QUEUE_SIZE \<Longrightarrow>
      s1 = s \<and> length (pending s) = 64 \<and> accepted (count s) ps = []"
  proof -
    assume c: "count s = WEBRTC_QUEUE_SIZE"
    have "\<And>s'. count s' = 64 \<Longrightarrow> push_all f ps s' = Some s'"
    proof (induction ps)
      case Nil
      show ?case by simp
    next
      case (Cons x ps)
      obtain dat len where x: "x = (dat, len)" by (cases x)
      have "webrtc_push f dat len s' = Some s'"
        using Cons.prems by (intro webrtc_push_drop) simp
      then show ?case using Cons by (simp add: x)
    qed
    then have "push_all f ps s = Some s" using c by (simp add: WEBRTC_QUEUE_SIZE_def)
    with s1(1) have "s1 = s" by simp
    moreover have "length (pending s) = 64"
      using c by (simp add: pending_def live_def WEBRTC_QUEUE_SIZE_def)
    moreover have "accepted (count s) ps = []"
      using c by (simp add: accepted_full WEBRTC_QUEUE_SIZE_def)
    ultimately show ?thesis by simp
  qed
  show ?thesis
    using s1 s2 poll full by (auto simp: NET_WebRTC_Poll_def)
qed

text \<open>
  Witness for C1: in the state after a successful \<open>webrtc_init\<close>, pushes of 3 bytes, of 0
  bytes, of 2049 bytes and of 2 bytes deliver the first and the last packet, in this order.
\<close>

theorem webrtc_push_fifo_witness:
  "state_inv example_fresh \<and> initialized example_fresh \<and>
   list_all (\<lambda>p. snd p \<le> int (length (fst p)))
     [([1, 2, 3], 3), ([], 0), (replicate 2049 1, 2049), ([7, 8], 2)] \<and>
   (\<exists>s1 s2.
      push_all (\<lambda>a. a) [([1, 2, 3], 3), ([], 0), (replicate 2049 1, 2049), ([7, 8], 2)]
        example_fresh = Some s1 \<and>
      NET_WebRTC_Poll s1 = 2 \<and>
      drain (nat (NET_WebRTC_Poll s1)) ''0.0.0.0'' s1
        = Some ([([1, 2, 3], Some ''127.0.0.1:27015''), ([7, 8], Some ''127.0.0.1:27015'')],
                s2) \<and>
      NET_WebRTC_Poll s2 = 0)"
proof -
  have h: "list_all (\<lambda>p. snd p \<le> int (length (fst p)))
     [([1, 2, 3], 3), ([], 0), (replicate 2049 (1::8 word), 2049), ([7, 8], 2)]"
    by simp
  have p: "pending example_fresh = []"
    using example_fresh_inv by (simp add: pending_def live_def)
  have a: "accepted 0 [([1, 2, 3], 3), ([], 0), (replicate 2049 (1::8 word), 2049), ([7, 8], 2)]
      = [([1, 2, 3], 3), ([7, 8], 2)]"
    by (simp add: accepted_def size_ok_def WEBRTC_QUEUE_SIZE_def WEBRTC_MAX_PACKET_SIZE_def)
  show ?thesis
    using webrtc_push_fifo [of example_fresh
        "[([1, 2, 3], 3), ([], 0), (replicate 2049 1, 2049), ([7, 8], 2)]" "\<lambda>a. a" "''0.0.0.0''"]
      example_fresh_inv h
    by (simp add: p a delivered_def WEBRTC_QUEUE_SIZE_def)
qed

text \<open>
  Counterexample to C1 as stated (the drops counted are those for oversize and for a full
  queue): a push of length 0 into the empty, initialized queue is neither oversized nor does
  it find the queue full, yet it is dropped by the test \<^verbatim>\<open>len <= 0\<close>. Nothing is
  retrievable afterwards, where the stated count gives one packet.
\<close>

theorem webrtc_push_fifo_counterexample:
  "webrtc_push (\<lambda>a. a) [] 0 example_fresh = Some example_fresh \<and>
   \<not> 0 > WEBRTC_MAX_PACKET_SIZE \<and> \<not> count example_fresh \<ge> WEBRTC_QUEUE_SIZE \<and>
   drain (nat (NET_WebRTC_Poll example_fresh)) ''0.0.0.0'' example_fresh
     = Some ([], example_fresh) \<and>
   delivered (\<lambda>a. a) (accepted_as_claimed (count example_fresh) [([], 0)])
     = [([], Some ''127.0.0.1:27015'')]"
  using example_fresh_inv
  by (simp add: webrtc_push_def NET_WebRTC_Poll_def accepted_as_claimed_def delivered_def
        WEBRTC_QUEUE_SIZE_def WEBRTC_MAX_PACKET_SIZE_def)

subsection \<open>C2: the value returned by \<open>NET_SetTransport\<close>\<close>

text \<open>
  In every state \<open>NET_SetTransport\<close> with a non-null argument installs it, with a null
  argument changes nothing, and returns the content of the cell. When the cell is set, this
  is what \<open>NET_GetCurrentTransport\<close> would have returned.
\<close>

lemma NET_SetTransport_installs:
  "snd (NET_SetTransport (Some d) c) = Some d \<and> snd (NET_SetTransport None c) = c \<and>
   fst (NET_SetTransport t c) = c \<and>
   fst (NET_GetCurrentTransport (snd (NET_SetTransport (Some d) c))) = Some d"
  by (simp add: NET_SetTransport_def NET_GetCurrentTransport_def Let_def)

lemma NET_SetTransport_returns_current:
  "c \<noteq> None \<Longrightarrow> fst (NET_SetTransport t c) = fst (NET_GetCurrentTransport c)"
  by (simp add: NET_SetTransport_def NET_GetCurrentTransport_def Let_def)

text \<open>
  Claim C2 at a fresh process, where no transport was ever set or read:
  \<open>NET_GetCurrentTransport\<close> would return the UDP descriptor, but \<open>NET_SetTransport\<close>
  returns \<^verbatim>\<open>NULL\<close>, for a non-null argument as well as for a null one.
\<close>

theorem NET_SetTransport_fresh_returns_null:
  "fst (NET_GetCurrentTransport g_current_transport_initial) = Some Addr_g_udp_transport \<and>
   NET_SetTransport (Some Addr_g_webrtc_transport) g_current_transport_initial
     = (None, Some Addr_g_webrtc_transport) \<and>
   NET_SetTransport None g_current_transport_initial = (None, None)"
  by (simp add: NET_SetTransport_def NET_GetCurrentTransport_def Let_def
        g_current_transport_initial_def)

subsection \<open>C3: the cases of \<open>NET_WebRTC_Recv\<close>\<close>

text \<open>
  Claim C3. In a state that satisfies the invariant, with the transport initialized and
  \<open>count > 0\<close>: if the head packet is longer than \<open>maxlen\<close>, \<open>NET_WebRTC_Recv\<close> returns
  a negative value, leaves the caller's buffer and address as they are, and removes the head
  packet, so that \<open>count\<close> decreases by one and \<open>head\<close> advances modulo 64; otherwise,
  for a buffer of at least \<open>maxlen\<close> bytes, it copies the bytes of the head packet to the
  front of the buffer, writes the packet's source address when \<^verbatim>\<open>from\<close> is not null,
  removes the packet and returns its length. When the transport is not initialized or the
  queue is empty it returns 0 and changes nothing.
\<close>

theorem NET_WebRTC_Recv_cases:
  "(state_inv s \<and> initialized s \<and> 0 < count s \<longrightarrow>
      (maxlen < length_p (queue s ! nat (head s)) \<longrightarrow>
         (\<exists>r s'. NET_WebRTC_Recv buf maxlen from s = Some (r, buf, from, s') \<and> r < 0 \<and>
            count s' = count s - 1 \<and> head s' = (head s + 1) mod WEBRTC_QUEUE_SIZE \<and>
            tail s' = tail s \<and> queue s' = queue s \<and> initialized s')) \<and>
      (length_p (queue s ! nat (head s)) \<le> maxlen \<and> maxlen \<le> int (length buf) \<longrightarrow>
         (\<exists>s'. NET_WebRTC_Recv buf maxlen from s =
                 Some (length_p (queue s ! nat (head s)),
                       take (nat (length_p (queue s ! nat (head s))))
                         (data (queue s ! nat (head s)))
                       @ drop (nat (length_p (queue s ! nat (head s)))) buf,
                       if from = None then None else Some (from_p (queue s ! nat (head s))),
                       s') \<and>
            0 < length_p (queue s ! nat (head s)) \<and>
            count s' = count s - 1 \<and> head s' = (head s + 1) mod WEBRTC_QUEUE_SIZE \<and>
            tail s' = tail s \<and> queue s' = queue s \<and> initialized s'))) \<and>
   (\<not> initialized s \<or> count s = 0 \<longrightarrow>
      NET_WebRTC_Recv buf maxlen from s = Some (0, buf, from, s))"
proof -
  have idle: "\<not> initialized s \<or> count s = 0 \<Longrightarrow>
      NET_WebRTC_Recv buf maxlen from s = Some (0, buf, from, s)"
    by (auto simp: NET_WebRTC_Recv_def)
  have busy: "?thesis" if inv: "state_inv s" and ini: "initialized s" and c: "0 < count s"
  proof -
    from c have ne: "count s \<noteq> 0" by simp
    from inv have h: "0 \<le> head s" by (simp add: state_inv_def queue_inv_def)
    note f = dequeued_fields [OF h]
    have a: "maxlen < length_p (queue s ! nat (head s)) \<Longrightarrow>
        NET_WebRTC_Recv buf maxlen from s = Some (- 1, buf, from, dequeued s)"
      using inv ini ne by (rule NET_WebRTC_Recv_drop)
    have b: "length_p (queue s ! nat (head s)) \<le> maxlen \<Longrightarrow> maxlen \<le> int (length buf) \<Longrightarrow>
        NET_WebRTC_Recv buf maxlen from s =
          Some (length_p (queue s ! nat (head s)),
                take (nat (length_p (queue s ! nat (head s)))) (data (queue s ! nat (head s)))
                @ drop (nat (length_p (queue s ! nat (head s)))) buf,
                if from = None then None else Some (from_p (queue s ! nat (head s))),
                dequeued s)"
      using NET_WebRTC_Recv_result [OF inv ini ne, of maxlen buf "from"]
      by (auto simp: Let_def)
    show ?thesis
      using a b f ini c head_packet_size [OF inv ini ne] by auto
  qed
  show ?thesis using idle busy by blast
qed

text \<open>
  Witness for C3: with one packet of three bytes queued, a receive with \<open>maxlen = 2\<close> drops
  it, a receive into four bytes delivers it, and a receive on the empty queue returns 0.
\<close>

theorem NET_WebRTC_Recv_cases_witness:
  "state_inv example_one \<and> initialized example_one \<and> 0 < count example_one \<and>
   (\<exists>r s'. NET_WebRTC_Recv [0, 0] 2 None example_one = Some (r, [0, 0], None, s') \<and> r < 0 \<and>
      count s' = 0) \<and>
   (\<exists>s'. NET_WebRTC_Recv [9, 9, 9, 9] 4 (Some ''x'') example_one
            = Some (3, [1, 2, 3, 9], Some ''127.0.0.1:27015'', s') \<and> count s' = 0) \<and>
   NET_WebRTC_Recv [9, 9, 9, 9] 4 None example_fresh = Some (0, [9, 9, 9, 9], None, example_fresh)"
  using NET_WebRTC_Recv_cases [of example_one 2 "[0, 0]" None]
    NET_WebRTC_Recv_cases [of example_one 4 "[9, 9, 9, 9]" "Some ''x''"]
    NET_WebRTC_Recv_cases [of example_fresh 4 "[9, 9, 9, 9]" None]
    example_one_push example_one_head example_fresh_inv
  by auto

subsection \<open>C4: initialization\<close>

text \<open>
  Claim C4, as the code has it. The handshake is made by \<open>webrtc_init\<close>, the entry point
  that the bridge calls: when the bridge answers ready it sets \<open>head = tail = count = 0\<close>,
  marks the transport initialized, installs the WebRTC descriptor in the registry and
  returns 1; when the bridge answers not ready it returns 0 and leaves every static object
  as it was. The \<^verbatim>\<open>init\<close> slot of the WebRTC descriptor holds another function,
  \<open>NET_WebRTC_Init\<close>, which returns 1 and changes nothing.
\<close>

theorem webrtc_init_result:
  "(js \<noteq> 0 \<longrightarrow>
      webrtc_init js g =
        (1, g\<lparr>g_current_transport := Some Addr_g_webrtc_transport,
               g_webrtc_state :=
                 (g_webrtc_state g)\<lparr>head := 0, tail := 0, count := 0, initialized := True\<rparr>\<rparr>) \<and>
      fst (NET_GetCurrentTransport (g_current_transport (snd (webrtc_init js g))))
        = NET_GetWebRTCTransport) \<and>
   (js = 0 \<longrightarrow> webrtc_init js g = (0, g)) \<and>
   init (deref Addr_g_webrtc_transport) = Fn_NET_WebRTC_Init \<and>
   call_init Addr_g_webrtc_transport g = Some (1, g)"
  by (simp add: webrtc_init_def NET_SetTransport_def NET_GetWebRTCTransport_def
        NET_GetCurrentTransport_def Let_def call_init_def g_webrtc_transport_def
        NET_WebRTC_Init_def)

text \<open>Witness for C4: both answers of the bridge, in a fresh process.\<close>

theorem webrtc_init_result_witness:
  "(1::int) \<noteq> 0 \<and> (0::int) = 0 \<and>
   webrtc_init 1 (globals_initial ''0.0.0.0'') =
     (1, \<lparr>g_current_transport = Some Addr_g_webrtc_transport,
          g_webrtc_state = (g_webrtc_state_initial ''0.0.0.0'')\<lparr>initialized := True\<rparr>\<rparr>) \<and>
   webrtc_init 0 (globals_initial ''0.0.0.0'') = (0, globals_initial ''0.0.0.0'')"
  using webrtc_init_result [of 1 "globals_initial ''0.0.0.0''"]
    webrtc_init_result [of 0 "globals_initial ''0.0.0.0''"]
  by (simp add: globals_initial_def g_webrtc_state_initial_def)

text \<open>
  Counterexample to C4 as stated for the \<^verbatim>\<open>init\<close> operation of the alternative
  transport: called through the descriptor in a fresh process, it reports success, but the
  transport is not marked initialized and the registry does not hold the WebRTC descriptor.
\<close>

theorem transport_init_slot_counterexample:
  "call_init Addr_g_webrtc_transport (globals_initial ''0.0.0.0'')
     = Some (1, globals_initial ''0.0.0.0'') \<and>
   \<not> initialized (g_webrtc_state (globals_initial ''0.0.0.0'')) \<and>
   g_current_transport (globals_initial ''0.0.0.0'') \<noteq> Some Addr_g_webrtc_transport"
  by (simp add: call_init_def g_webrtc_transport_def NET_WebRTC_Init_def globals_initial_def
        g_webrtc_state_initial_def g_current_transport_initial_def)

subsection \<open>C5: the error cases of \<open>webrtc_push\<close>\<close>

text \<open>
  Claim C5. When the transport is not initialized, or the length is not positive or greater
  than 2048, or \<open>count\<close> has reached 64, \<open>webrtc_push\<close> is defined and returns the state
  it was given: \<open>head\<close>, \<open>tail\<close>, \<open>count\<close> and every slot are unchanged.
\<close>

theorem webrtc_push_error_cases:
  "\<not> initialized s \<or> len \<le> 0 \<or> len > WEBRTC_MAX_PACKET_SIZE \<or> count s \<ge> WEBRTC_QUEUE_SIZE
   \<Longrightarrow> webrtc_push f dat len s = Some s"
  by (auto simp: webrtc_push_def)

text \<open>Witness for C5: one call in each of the error cases.\<close>

theorem webrtc_push_error_cases_witness:
  "\<not> initialized (g_webrtc_state_initial ''0.0.0.0'') \<and>
   webrtc_push (\<lambda>a. a) [1, 2, 3] 3 (g_webrtc_state_initial ''0.0.0.0'')
     = Some (g_webrtc_state_initial ''0.0.0.0'') \<and>
   webrtc_push (\<lambda>a. a) [] 0 example_fresh = Some example_fresh \<and>
   webrtc_push (\<lambda>a. a) (replicate 2049 1) 2049 example_fresh = Some example_fresh \<and>
   webrtc_push (\<lambda>a. a) [1, 2, 3] 3 (example_one\<lparr>count := 64\<rparr>) = Some (example_one\<lparr>count := 64\<rparr>)"
  using webrtc_push_error_cases [of "g_webrtc_state_initial ''0.0.0.0''" 3 "\<lambda>a. a" "[1, 2, 3]"]
    webrtc_push_error_cases [of example_fresh 0 "\<lambda>a. a" "[]"]
    webrtc_push_error_cases [of example_fresh 2049 "\<lambda>a. a" "replicate 2049 1"]
    webrtc_push_error_cases [of "example_one\<lparr>count := 64\<rparr>" 3 "\<lambda>a. a" "[1, 2, 3]"]
  by (simp add: g_webrtc_state_initial_def WEBRTC_QUEUE_SIZE_def WEBRTC_MAX_PACKET_SIZE_def)

subsection \<open>C6: the result of \<open>NET_WebRTC_Send\<close>\<close>

text \<open>
  Claim C6, as the code has it. When the transport is not initialized, \<open>NET_WebRTC_Send\<close>
  returns \<open>- 1\<close> and makes no call to the bridge. When it is initialized (and the
  destination is not null), it makes exactly one call to the bridge with the buffer and the
  length; it returns the length when the bridge reports the length, and \<open>- 1\<close> when the
  bridge reports anything else, so the result is the length or negative. For every length
  other than \<open>- 1\<close> the result is the length if and only if the bridge reports the
  length.
\<close>

theorem NET_WebRTC_Send_result:
  "(\<not> initialized s \<longrightarrow> NET_WebRTC_Send bridge buf len to s = Some (- 1, [])) \<and>
   (initialized s \<and> to \<noteq> None \<longrightarrow>
      (\<exists>r. NET_WebRTC_Send bridge buf len to s = Some (r, [(buf, len)]) \<and>
           (bridge buf len = len \<longrightarrow> r = len) \<and>
           (bridge buf len \<noteq> len \<longrightarrow> r = - 1 \<and> r < 0) \<and>
           (r = len \<or> r < 0) \<and>
           (len \<noteq> - 1 \<longrightarrow> (r = len \<longleftrightarrow> bridge buf len = len))))"
  by (auto simp: NET_WebRTC_Send_def)

text \<open>
  Witness for C6: a bridge that accepts everything, a bridge that accepts two bytes of
  three, and a transport that is not initialized.
\<close>

theorem NET_WebRTC_Send_result_witness:
  "initialized example_fresh \<and> \<not> initialized (g_webrtc_state_initial ''0.0.0.0'') \<and>
   NET_WebRTC_Send (\<lambda>b n. n) [1, 2, 3] 3 (Some ''10.0.0.1'') example_fresh
     = Some (3, [([1, 2, 3], 3)]) \<and>
   (\<exists>r. NET_WebRTC_Send (\<lambda>b n. 2) [1, 2, 3] 3 (Some ''10.0.0.1'') example_fresh
           = Some (r, [([1, 2, 3], 3)]) \<and> r < 0) \<and>
   NET_WebRTC_Send (\<lambda>b n. n) [1, 2, 3] 3 (Some ''10.0.0.1'') (g_webrtc_state_initial ''0.0.0.0'')
     = Some (- 1, [])"
  using NET_WebRTC_Send_result [of example_fresh "\<lambda>b n. n" "[1, 2, 3]" 3 "Some ''10.0.0.1''"]
    NET_WebRTC_Send_result [of example_fresh "\<lambda>b n. 2" "[1, 2, 3]" 3 "Some ''10.0.0.1''"]
    NET_WebRTC_Send_result [of "g_webrtc_state_initial ''0.0.0.0''" "\<lambda>b n. n" "[1, 2, 3]" 3
      "Some ''10.0.0.1''"]
    example_fresh_inv
  by (auto simp: g_webrtc_state_initial_def)

text \<open>
  Counterexample to C6 as stated for every length: with the length \<open>- 1\<close> and a bridge
  that reports 0 accepted bytes, the reported count differs from the length, and the value
  returned for the failure, \<open>- 1\<close>, is the length itself.
\<close>

theorem NET_WebRTC_Send_result_counterexample:
  "initialized example_fresh \<and>
   (\<lambda>b n. 0) ([] :: 8 word list) (- 1 :: int) \<noteq> (- 1 :: int) \<and>
   NET_WebRTC_Send (\<lambda>b n. 0) [] (- 1) (Some ''10.0.0.1'') example_fresh
     = Some (- 1, [([], - 1)])"
  using example_fresh_inv by (simp add: NET_WebRTC_Send_def)

subsection \<open>C7: the occupancy invariant\<close>

text \<open>
  Claim C7. Every list of calls of \<open>webrtc_init\<close>, \<open>webrtc_push\<close>, \<open>NET_WebRTC_Recv\<close>
  and \<open>NET_WebRTC_Shutdown\<close> whose buffers hold the announced numbers of bytes runs, from
  the initial state, without undefined behaviour to a state with \<open>0 \<le> count \<le> 64\<close>,
  \<open>0 \<le> head < 64\<close> and \<open>0 \<le> tail < 64\<close>. Moreover \<open>count\<close> is 0 right after a
  successful \<open>webrtc_init\<close> and right after \<open>NET_WebRTC_Shutdown\<close>, in every state.
\<close>

theorem queue_occupancy_invariant:
  "(list_all call_ok cs \<longrightarrow>
      (\<exists>g. run f cs (globals_initial z) = Some g \<and> queue_inv (g_webrtc_state g))) \<and>
   (js \<noteq> 0 \<longrightarrow> count (g_webrtc_state (snd (webrtc_init js g0))) = 0) \<and>
   count (NET_WebRTC_Shutdown s) = 0"
proof -
  have "state_inv (g_webrtc_state (globals_initial z))"
    by (simp add: globals_initial_def state_inv_initial)
  then have "list_all call_ok cs \<Longrightarrow>
      \<exists>g. run f cs (globals_initial z) = Some g \<and> queue_inv (g_webrtc_state g)"
    using run_inv [of "globals_initial z" cs f] by (auto simp: state_inv_def)
  then show ?thesis
    by (auto simp: webrtc_init_state NET_WebRTC_Shutdown_def)
qed

text \<open>Witness for C7: initialization, a push, a receive and the shutdown.\<close>

theorem queue_occupancy_invariant_witness:
  "list_all call_ok
     [Call_webrtc_init 1, Call_webrtc_push [1, 2, 3] 3,
      Call_NET_WebRTC_Recv [0, 0, 0, 0] 4 None, Call_NET_WebRTC_Shutdown] \<and>
   (\<exists>g. run (\<lambda>a. a)
          [Call_webrtc_init 1, Call_webrtc_push [1, 2, 3] 3,
           Call_NET_WebRTC_Recv [0, 0, 0, 0] 4 None, Call_NET_WebRTC_Shutdown]
          (globals_initial ''0.0.0.0'') = Some g \<and>
        queue_inv (g_webrtc_state g)) \<and>
   (1::int) \<noteq> 0 \<and>
   count (g_webrtc_state (snd (webrtc_init 1 (globals_initial ''0.0.0.0'')))) = 0"
  using queue_occupancy_invariant
    [of "[Call_webrtc_init 1, Call_webrtc_push [1, 2, 3] 3,
          Call_NET_WebRTC_Recv [0, 0, 0, 0] 4 None, Call_NET_WebRTC_Shutdown]"
        "\<lambda>a. a" "''0.0.0.0''" 1 "globals_initial ''0.0.0.0''" example_fresh]
  by (simp del: run.simps exec.simps)

subsection \<open>C8: \<open>NET_WebRTC_Poll\<close> is exact\<close>

text \<open>
  Claim C8. \<open>NET_WebRTC_Poll\<close> returns 0 when the transport is not initialized and
  \<open>count\<close> otherwise. From any state with a well-shaped queue, after a successful
  \<open>webrtc_init\<close> the push of a packet of 17 bytes makes it return 1; a receive with a
  buffer of 64 bytes then returns 17 and puts the packet at the front of the buffer, and
  \<open>NET_WebRTC_Poll\<close> returns 0 afterwards.
\<close>

theorem NET_WebRTC_Poll_exact:
  "NET_WebRTC_Poll s = (if initialized s then count s else 0) \<and>
   (queue_ok (g_webrtc_state g) \<and> js \<noteq> 0 \<and> length dat = 17 \<and> length buf = 64 \<longrightarrow>
      (\<exists>g1 s2 b a s3.
         webrtc_init js g = (1, g1) \<and>
         webrtc_push f dat 17 (g_webrtc_state g1) = Some s2 \<and>
         NET_WebRTC_Poll s2 = 1 \<and>
         NET_WebRTC_Recv buf 64 from s2 = Some (17, b, a, s3) \<and>
         b = dat @ drop 17 buf \<and>
         NET_WebRTC_Poll s3 = 0))"
proof -
  have scen: "\<exists>g1 s2 b a s3.
         webrtc_init js g = (1, g1) \<and>
         webrtc_push f dat 17 (g_webrtc_state g1) = Some s2 \<and>
         NET_WebRTC_Poll s2 = 1 \<and>
         NET_WebRTC_Recv buf 64 from s2 = Some (17, b, a, s3) \<and>
         b = dat @ drop 17 buf \<and>
         NET_WebRTC_Poll s3 = 0"
    if qok: "queue_ok (g_webrtc_state g)" and js: "js \<noteq> 0" and dl: "length dat = 17"
      and bl: "length buf = 64"
  proof -
    define s1 where
      "s1 = (g_webrtc_state g)\<lparr>head := 0, tail := 0, count := 0, initialized := True\<rparr>"
    have i: "webrtc_init js g =
        (1, g\<lparr>g_current_transport := Some Addr_g_webrtc_transport, g_webrtc_state := s1\<rparr>)"
      using js
      by (simp add: webrtc_init_def NET_SetTransport_def NET_GetWebRTCTransport_def s1_def)
    have inv1: "state_inv s1" unfolding s1_def using qok by (rule state_inv_reset)
    have ini1: "initialized s1" and c1: "count s1 = 0" and h1: "head s1 = 0"
      by (simp_all add: s1_def)
    have sz: "size_ok (dat, 17)" by (simp add: size_ok_def WEBRTC_MAX_PACKET_SIZE_def)
    from webrtc_push_accept [OF inv1 ini1 sz, of f] c1 dl
    obtain s2 where s2: "webrtc_push f dat 17 s1 = Some s2" "state_inv s2" "initialized s2"
      "count s2 = 1" "pending s2 = pending s1 @ delivered f [(dat, 17)]"
      by auto
    have p1: "pending s1 = []" by (simp add: pending_def live_def c1)
    have ne: "count s2 \<noteq> 0" using s2(4) by simp
    define p where "p = queue s2 ! nat (head s2)"
    have "live s2 = p # live (dequeued s2)"
      using live_head [OF s2(2) s2(3) ne] by (simp add: p_def)
    then have "pending s2 = (take (nat (length_p p)) (data p), Some (from_p p))
                 # pending (dequeued s2)"
      by (simp add: pending_def)
    with s2(5) p1 dl have tk: "take (nat (length_p p)) (data p) = dat"
      by (simp add: delivered_def)
    have psz: "0 < length_p p" "length_p p \<le> 2048"
      using head_packet_size [OF s2(2) s2(3) ne] by (simp_all add: p_def)
    from s2(2) have "queue_ok s2" "0 \<le> head s2" "head s2 < 64"
      by (simp_all add: state_inv_def queue_inv_def WEBRTC_QUEUE_SIZE_def)
    then have "length (data p) = 2048" unfolding p_def by (simp add: queue_ok_data)
    with psz have "length (take (nat (length_p p)) (data p)) = nat (length_p p)"
      by (simp add: nat_le_iff)
    with tk dl psz have lp: "length_p p = 17" by simp
    have r: "NET_WebRTC_Recv buf 64 from s2 =
        Some (17, dat @ drop 17 buf, if from \<noteq> None then Some (from_p p) else from,
              dequeued s2)"
      using NET_WebRTC_Recv_result [OF s2(2) s2(3) ne, of 64 buf "from"] bl tk
      by (simp add: p_def [symmetric] lp Let_def)
    have "NET_WebRTC_Poll s2 = 1" using s2 by (simp add: NET_WebRTC_Poll_def)
    moreover have "NET_WebRTC_Poll (dequeued s2) = 0"
      using s2 by (simp add: NET_WebRTC_Poll_def dequeued_def)
    ultimately show ?thesis using i s2(1) r by simp
  qed
  have "NET_WebRTC_Poll s = (if initialized s then count s else 0)"
    by (simp add: NET_WebRTC_Poll_def)
  with scen show ?thesis by blast
qed

text \<open>Witness for C8: the scenario in a fresh process.\<close>

theorem NET_WebRTC_Poll_exact_witness:
  "queue_ok (g_webrtc_state (globals_initial ''0.0.0.0'')) \<and> (1::int) \<noteq> 0 \<and>
   length (replicate 17 (65::8 word)) = 17 \<and> length (replicate 64 (0::8 word)) = 64 \<and>
   NET_WebRTC_Poll (g_webrtc_state_initial ''0.0.0.0'') = 0 \<and>
   (\<exists>g1 s2 a s3.
      webrtc_init 1 (globals_initial ''0.0.0.0'') = (1, g1) \<and>
      webrtc_push (\<lambda>a. a) (replicate 17 65) 17 (g_webrtc_state g1) = Some s2 \<and>
      NET_WebRTC_Poll s2 = 1 \<and>
      NET_WebRTC_Recv (replicate 64 0) 64 None s2
        = Some (17, replicate 17 65 @ replicate 47 0, a, s3) \<and>
      NET_WebRTC_Poll s3 = 0)"
proof -
  have q: "queue_ok (g_webrtc_state (globals_initial ''0.0.0.0''))"
    using state_inv_initial [of "''0.0.0.0''"] by (simp add: state_inv_def globals_initial_def)
  show ?thesis
    using NET_WebRTC_Poll_exact [of "g_webrtc_state_initial ''0.0.0.0''"
        "globals_initial ''0.0.0.0''" 1 "replicate 17 65" "replicate 64 0" "\<lambda>a. a" None] q
    by (simp add: g_webrtc_state_initial_def)
qed

subsection \<open>C9: \<open>NET_GetCurrentTransport\<close> never returns null\<close>

text \<open>
  Claim C9. \<open>NET_GetCurrentTransport\<close> never returns \<^verbatim>\<open>NULL\<close>. When a transport is set
  it returns it and leaves the cell as it is; when none is set it stores the address of the
  UDP descriptor in the cell and returns it. In a fresh process the result is the default
  descriptor, whose name is \<^verbatim>\<open>"UDP"\<close>.
\<close>

theorem NET_GetCurrentTransport_never_null:
  "fst (NET_GetCurrentTransport c) \<noteq> None \<and>
   NET_GetCurrentTransport (Some t) = (Some t, Some t) \<and>
   NET_GetCurrentTransport None = (Some Addr_g_udp_transport, Some Addr_g_udp_transport) \<and>
   fst (NET_GetCurrentTransport g_current_transport_initial) = NET_GetUDPTransport \<and>
   map_option (name \<circ> deref) (fst (NET_GetCurrentTransport g_current_transport_initial))
     = Some ''UDP''"
  by (simp add: NET_GetCurrentTransport_def Let_def g_current_transport_initial_def
        NET_GetUDPTransport_def g_udp_transport_def)

text \<open>Witness for C9: the unset cell and a cell that holds the WebRTC descriptor.\<close>

theorem NET_GetCurrentTransport_never_null_witness:
  "NET_GetCurrentTransport None = (Some Addr_g_udp_transport, Some Addr_g_udp_transport) \<and>
   NET_GetCurrentTransport (Some Addr_g_webrtc_transport)
     = (Some Addr_g_webrtc_transport, Some Addr_g_webrtc_transport) \<and>
   name (deref Addr_g_udp_transport) = ''UDP''"
  using NET_GetCurrentTransport_never_null [of None Addr_g_webrtc_transport]
  by (simp add: g_current_transport_initial_def NET_GetCurrentTransport_def Let_def)

subsection \<open>C10: what \<open>NET_WebRTC_Shutdown\<close> leaves untouched\<close>

text \<open>
  Claim C10. \<open>NET_WebRTC_Shutdown\<close> clears the flag \<open>initialized\<close> and sets \<open>count\<close> to
  0, and changes nothing else: \<open>head\<close>, \<open>tail\<close> and every slot of the queue, with its
  bytes, length and source address, are as before. Until the next successful
  \<open>webrtc_init\<close> a push and a receive change nothing, and that \<open>webrtc_init\<close> resets
  \<open>head\<close> and \<open>tail\<close> to 0 while the slots still hold the old packets.
\<close>

theorem NET_WebRTC_Shutdown_frame:
  "\<not> initialized (NET_WebRTC_Shutdown s) \<and> count (NET_WebRTC_Shutdown s) = 0 \<and>
   head (NET_WebRTC_Shutdown s) = head s \<and> tail (NET_WebRTC_Shutdown s) = tail s \<and>
   queue (NET_WebRTC_Shutdown s) = queue s \<and>
   NET_WebRTC_Shutdown s = s\<lparr>initialized := False, count := 0\<rparr> \<and>
   webrtc_push f dat len (NET_WebRTC_Shutdown s) = Some (NET_WebRTC_Shutdown s) \<and>
   NET_WebRTC_Recv buf maxlen from (NET_WebRTC_Shutdown s)
     = Some (0, buf, from, NET_WebRTC_Shutdown s) \<and>
   (js \<noteq> 0 \<longrightarrow>
      g_webrtc_state (snd (webrtc_init js (g\<lparr>g_webrtc_state := NET_WebRTC_Shutdown s\<rparr>)))
        = s\<lparr>head := 0, tail := 0, count := 0, initialized := True\<rparr>)"
  by (simp add: NET_WebRTC_Shutdown_def webrtc_push_def NET_WebRTC_Recv_def webrtc_init_def
        NET_SetTransport_def NET_GetWebRTCTransport_def)

text \<open>
  Witness for C10: after a shutdown with one packet queued, slot 0 still holds the three
  bytes, and a later successful \<open>webrtc_init\<close> resets the indices.
\<close>

theorem NET_WebRTC_Shutdown_frame_witness:
  "(1::int) \<noteq> 0 \<and>
   head (NET_WebRTC_Shutdown example_one) = 0 \<and>
   queue (NET_WebRTC_Shutdown example_one) ! 0 = queue example_one ! 0 \<and>
   length_p (queue (NET_WebRTC_Shutdown example_one) ! 0) = 3 \<and>
   count (NET_WebRTC_Shutdown example_one) = 0 \<and>
   g_webrtc_state (snd (webrtc_init 1
       (\<lparr>g_current_transport = None, g_webrtc_state = NET_WebRTC_Shutdown example_one\<rparr>)))
     = example_one\<lparr>head := 0, tail := 0, count := 0, initialized := True\<rparr>"
  using NET_WebRTC_Shutdown_frame [of example_one "\<lambda>a. a" "[]" 0 "[]" 0 None 1
      "\<lparr>g_current_transport = None, g_webrtc_state = NET_WebRTC_Shutdown example_one\<rparr>"]
    example_one_head
  by (simp add: NET_WebRTC_Shutdown_def)

end
